theory Spec2Isabelle
  imports Main "HOL-Library.List_Lexorder" "HOL-Library.Sublist" "HOL-Library.Code_Target_Nat"
begin

section \<open>Column comparison across dataframes: \<^verbatim>\<open>compare_dataframe_columns\<close>\<close>

text \<open>
  The embedded program is the single function of \<^verbatim>\<open>src/code_for_work.py\<close>:
  \<^verbatim>\<open>
  def compare_dataframe_columns(*dataframes, names=None, print_results=True):
      if len(dataframes) < 2:
          raise ValueError("Please provide at least 2 dataframes to compare")
      if names is None:
          names = [f"df{i+1}" for i in range(len(dataframes))]
      elif len(names) != len(dataframes):
          raise ValueError(f"Number of names ({len(names)}) must match number of dataframes ({len(dataframes)})")
      column_sets = {name: set(df.columns) for name, df in zip(names, dataframes)}
      unique_columns = {}
      for i, (name, df) in enumerate(zip(names, dataframes)):
          current_cols = column_sets[name]
          other_cols = set()
          for j, other_name in enumerate(names):
              if i != j:
                  other_cols.update(column_sets[other_name])
          unique = sorted(list(current_cols - other_cols))
          unique_columns[name] = unique
      if print_results:
          print("=" * 60)
          print("DATAFRAME COLUMN COMPARISON RESULTS")
          print("=" * 60)
          print()
          for df_name, unique_cols in unique_columns.items():
              if unique_cols:
                  print(f"{df_name} has {unique_cols} which are not present in other dataframes")
              else:
                  print(f"{df_name} has no unique columns")
          print("=" * 60)
      return unique_columns
  \<close>
\<close>

subsection \<open>Data model\<close>

text \<open>
  A Python string is a sequence of Unicode code points (numbers below 0x110000, lone
  surrogates included), and strings are compared lexicographically by code point; so a
  character is its code point and a string is a list of them, with the lexicographic
  order of lists. \<open>lit\<close> turns an ASCII literal of the source into such a string.
\<close>

type_synonym pychar = nat

type_synonym pystr = "pychar list"

definition lit :: "string \<Rightarrow> pystr" where
  "lit s = map of_char s"

text \<open>
  The only thing the function reads from a dataframe is \<^verbatim>\<open>df.columns\<close>, the ordered
  sequence of its column labels (repetitions allowed), so a dataframe is that sequence.
  Column labels and names are strings.
\<close>

type_synonym dataframe = "pystr list"

text \<open>The exceptions a call can raise: the two \<^verbatim>\<open>ValueError\<close>s the function raises
  itself, with their messages, the \<^verbatim>\<open>KeyError\<close> of a dictionary subscript, and what a
  write to standard output raises: \<^verbatim>\<open>UnicodeEncodeError\<close> when the stream cannot encode
  the text, \<^verbatim>\<open>OSError\<close> when its device fails (a closed stream raises a
  \<^verbatim>\<open>ValueError\<close>).\<close>

datatype error = ValueError pystr | KeyError pystr | UnicodeEncodeError | OSError

text \<open>
  A Python \<^verbatim>\<open>dict\<close> keeps its keys in insertion order, so it is an association list
  with distinct keys. \<^verbatim>\<open>d[k] = v\<close> overwrites the value of an existing key in place
  (the key keeps its position) and appends a new key at the end; \<^verbatim>\<open>d[k]\<close> raises
  \<^verbatim>\<open>KeyError\<close> for a key that is absent.
\<close>

type_synonym 'v dict = "(pystr \<times> 'v) list"

fun dict_set :: "'v dict \<Rightarrow> pystr \<Rightarrow> 'v \<Rightarrow> 'v dict" where
  "dict_set [] k v = [(k, v)]"
| "dict_set ((k', v') # d) k v =
     (if k' = k then (k', v) # d else (k', v') # dict_set d k v)"

definition dict_get :: "'v dict \<Rightarrow> pystr \<Rightarrow> error + 'v" where
  "dict_get d k = (case map_of d k of None \<Rightarrow> Inl (KeyError k) | Some v \<Rightarrow> Inr v)"

subsection \<open>String formatting\<close>

text \<open>\<^verbatim>\<open>str(n)\<close> of a non-negative integer: its decimal digits, most significant first.\<close>

definition digit_char :: "nat \<Rightarrow> pychar" where
  "digit_char d = 48 + d"

fun str_nat :: "nat \<Rightarrow> pystr" where
  "str_nat n = (if n < 10 then [digit_char n] else str_nat (n div 10) @ [digit_char (n mod 10)])"

declare str_nat.simps [simp del]

text \<open>
  \<^verbatim>\<open>repr(s)\<close> of a string, as \<^verbatim>\<open>str(list)\<close> applies it to each element. The string is
  quoted with single quotes, or with double quotes when it contains a single quote and no
  double quote. Inside, in this order: the quote character and the backslash are escaped
  with a backslash; tab, newline and carriage return are written \<^verbatim>\<open>\t\<close>, \<^verbatim>\<open>\n\<close>,
  \<^verbatim>\<open>\r\<close>; the other characters below the space, and DEL, are written \<^verbatim>\<open>\xhh\<close>; the
  other ASCII characters are copied; a character from 0x7F on that is not printable is
  written \<^verbatim>\<open>\xhh\<close>, \<^verbatim>\<open>\uhhhh\<close> or \<^verbatim>\<open>\Uhhhhhhhh\<close> (the shortest that holds its code
  point, lower-case hexadecimal digits), and a printable one is copied. Which characters
  are printable is a table of the Unicode database (\<^verbatim>\<open>str.isprintable\<close>); it is the
  parameter \<open>isprintable\<close>.
\<close>

definition hex_digit :: "nat \<Rightarrow> pychar" where
  "hex_digit d = (if d < 10 then 48 + d else 87 + d)"

definition hex_digits :: "nat \<Rightarrow> nat \<Rightarrow> pystr" where
  "hex_digits width c = map (\<lambda>k. hex_digit ((c div 16 ^ k) mod 16)) (rev [0..<width])"

definition repr_char :: "(pychar \<Rightarrow> bool) \<Rightarrow> pychar \<Rightarrow> pychar \<Rightarrow> pystr" where
  "repr_char isprintable quote c =
     (if c = quote \<or> c = 0x5C then [0x5C, c]
      else if c = 0x09 then (0x5C # lit ''t'')
      else if c = 0x0A then (0x5C # lit ''n'')
      else if c = 0x0D then (0x5C # lit ''r'')
      else if c < 0x20 \<or> c = 0x7F then (0x5C # lit ''x'') @ hex_digits 2 c
      else if c < 0x7F then [c]
      else if \<not> isprintable c then
        (if c \<le> 0xFF then (0x5C # lit ''x'') @ hex_digits 2 c
         else if c \<le> 0xFFFF then (0x5C # lit ''u'') @ hex_digits 4 c
         else (0x5C # lit ''U'') @ hex_digits 8 c)
      else [c])"

definition repr_str :: "(pychar \<Rightarrow> bool) \<Rightarrow> pystr \<Rightarrow> pystr" where
  "repr_str isprintable s =
     (let quote = (if 0x27 \<in> set s \<and> 0x22 \<notin> set s then 0x22 else 0x27)
      in [quote] @ concat (map (repr_char isprintable quote) s) @ [quote])"

text \<open>\<^verbatim>\<open>", ".join(parts)\<close>\<close>

fun join_comma :: "pystr list \<Rightarrow> pystr" where
  "join_comma [] = []"
| "join_comma [p] = p"
| "join_comma (p # q # ps) = p @ lit '', '' @ join_comma (q # ps)"

text \<open>\<^verbatim>\<open>str(xs)\<close> of a list of strings, which is what \<^verbatim>\<open>{unique_cols}\<close> in the
  f-string produces.\<close>

definition str_list :: "(pychar \<Rightarrow> bool) \<Rightarrow> pystr list \<Rightarrow> pystr" where
  "str_list isprintable xs = lit ''['' @ join_comma (map (repr_str isprintable) xs) @ lit '']''"

subsection \<open>Standard output\<close>

text \<open>
  \<^verbatim>\<open>sys.stdout\<close> is a text stream of the environment. What the function needs of it is
  \<^verbatim>\<open>write\<close>: given a text, the stream accepts it or raises (a stream with a strict
  encoding raises \<^verbatim>\<open>UnicodeEncodeError\<close> for a text it cannot encode, and then takes
  none of it). The stream is the parameter \<open>stdout\<close>: \<open>stdout s = None\<close> when it accepts
  \<open>s\<close>, and \<open>Some e\<close> when the write raises \<open>e\<close>; the outcome of a write depends on its
  text only. The state is the text accepted so far; an operation returns the exception it
  raised, if any, and the new state.
\<close>

type_synonym stream = "pystr \<Rightarrow> error option"

definition write_py :: "stream \<Rightarrow> pystr \<Rightarrow> pystr \<Rightarrow> error option \<times> pystr" where
  "write_py stdout s out = (case stdout s of Some e \<Rightarrow> (Some e, out) | None \<Rightarrow> (None, out @ s))"

text \<open>Sequencing: an exception ends the sequence.\<close>

definition and_then ::
  "error option \<times> pystr \<Rightarrow> (pystr \<Rightarrow> error option \<times> pystr) \<Rightarrow> error option \<times> pystr" where
  "and_then r f = (case r of (Some e, out) \<Rightarrow> (Some e, out) | (None, out) \<Rightarrow> f out)"

text \<open>\<^verbatim>\<open>print(s)\<close> writes \<open>s\<close> and then the line end, as two writes; \<^verbatim>\<open>print()\<close>
  writes the line end only.\<close>

definition print_py :: "stream \<Rightarrow> pystr \<Rightarrow> pystr \<Rightarrow> error option \<times> pystr" where
  "print_py stdout s out = and_then (write_py stdout s out) (write_py stdout [0x0A])"

definition print_empty :: "stream \<Rightarrow> pystr \<Rightarrow> error option \<times> pystr" where
  "print_empty stdout out = write_py stdout [0x0A] out"

subsection \<open>The function\<close>

text \<open>The default names: \<^verbatim>\<open>[f"df{i+1}" for i in range(len(dataframes))]\<close>.\<close>

definition default_names :: "dataframe list \<Rightarrow> pystr list" where
  "default_names dataframes = map (\<lambda>i. lit ''df'' @ str_nat (i + 1)) [0..<length dataframes]"

text \<open>The dictionary comprehension
  \<^verbatim>\<open>{name: set(df.columns) for name, df in zip(names, dataframes)}\<close>: one store per
  pair, in order.\<close>

definition column_sets_of :: "pystr list \<Rightarrow> dataframe list \<Rightarrow> pystr set dict" where
  "column_sets_of names dataframes =
     foldl (\<lambda>d (name, df). dict_set d name (set df)) [] (zip names dataframes)"

text \<open>The inner loop \<^verbatim>\<open>for j, other_name in enumerate(names)\<close>, started with
  \<^verbatim>\<open>other_cols = set()\<close>.\<close>

fun other_cols_loop ::
  "pystr set dict \<Rightarrow> nat \<Rightarrow> (nat \<times> pystr) list \<Rightarrow> pystr set \<Rightarrow> error + pystr set" where
  "other_cols_loop column_sets i [] other_cols = Inr other_cols"
| "other_cols_loop column_sets i ((j, other_name) # rest) other_cols =
     (if i \<noteq> j then
        (case dict_get column_sets other_name of
           Inl e \<Rightarrow> Inl e
         | Inr s \<Rightarrow> other_cols_loop column_sets i rest (other_cols \<union> s))
      else other_cols_loop column_sets i rest other_cols)"

text \<open>One pass of the outer loop's body: the value stored under \<open>name\<close> at index \<open>i\<close>.\<close>

definition unique_of :: "pystr set dict \<Rightarrow> pystr list \<Rightarrow> nat \<Rightarrow> pystr \<Rightarrow> error + pystr list" where
  "unique_of column_sets names i name =
     (case dict_get column_sets name of
        Inl e \<Rightarrow> Inl e
      | Inr current_cols \<Rightarrow>
          (case other_cols_loop column_sets i (enumerate 0 names) {} of
             Inl e \<Rightarrow> Inl e
           | Inr other_cols \<Rightarrow> Inr (sorted_list_of_set (current_cols - other_cols))))"

text \<open>The outer loop \<^verbatim>\<open>for i, (name, df) in enumerate(zip(names, dataframes))\<close>,
  started with \<^verbatim>\<open>unique_columns = {}\<close>.\<close>

fun unique_loop ::
  "pystr set dict \<Rightarrow> pystr list \<Rightarrow> (nat \<times> pystr \<times> dataframe) list \<Rightarrow> pystr list dict
     \<Rightarrow> error + pystr list dict" where
  "unique_loop column_sets names [] unique_columns = Inr unique_columns"
| "unique_loop column_sets names ((i, name, df) # rest) unique_columns =
     (case unique_of column_sets names i name of
        Inl e \<Rightarrow> Inl e
      | Inr unique \<Rightarrow> unique_loop column_sets names rest (dict_set unique_columns name unique))"

text \<open>The names in effect after the two checks on \<^verbatim>\<open>names\<close>: the default names
  when \<^verbatim>\<open>names is None\<close>, the \<^verbatim>\<open>ValueError\<close> when the lengths differ, the
  names as given otherwise.\<close>

definition resolve_names :: "dataframe list \<Rightarrow> pystr list option \<Rightarrow> error + pystr list" where
  "resolve_names dataframes names_arg =
     (case names_arg of
        None \<Rightarrow> Inr (default_names dataframes)
      | Some ns \<Rightarrow>
          if length ns \<noteq> length dataframes
          then Inl (ValueError (lit ''Number of names ('' @ str_nat (length ns) @
                 lit '') must match number of dataframes ('' @
                 str_nat (length dataframes) @ lit '')''))
          else Inr ns)"

text \<open>The function up to the report: the checks and the construction of
  \<^verbatim>\<open>unique_columns\<close>.\<close>

definition unique_columns_of :: "dataframe list \<Rightarrow> pystr list option \<Rightarrow> error + pystr list dict" where
  "unique_columns_of dataframes names_arg =
     (if length dataframes < 2
      then Inl (ValueError (lit ''Please provide at least 2 dataframes to compare''))
      else
        (case resolve_names dataframes names_arg of
           Inl e \<Rightarrow> Inl e
         | Inr names \<Rightarrow>
             unique_loop (column_sets_of names dataframes) names
               (enumerate 0 (zip names dataframes)) []))"

text \<open>The report: the banner is \<^verbatim>\<open>"=" * 60\<close>; \<^verbatim>\<open>if unique_cols:\<close> tests the list
  for being non-empty.\<close>

definition banner :: pystr where
  "banner = replicate 60 (of_char CHR ''='')"

definition report_line :: "(pychar \<Rightarrow> bool) \<Rightarrow> pystr \<times> pystr list \<Rightarrow> pystr" where
  "report_line isprintable = (\<lambda>(df_name, unique_cols).
     if unique_cols \<noteq> []
     then df_name @ lit '' has '' @ str_list isprintable unique_cols @
          lit '' which are not present in other dataframes''
     else df_name @ lit '' has no unique columns'')"

text \<open>The loop \<^verbatim>\<open>for df_name, unique_cols in unique_columns.items()\<close>.\<close>

fun report_loop ::
  "(pychar \<Rightarrow> bool) \<Rightarrow> stream \<Rightarrow> pystr list dict \<Rightarrow> pystr \<Rightarrow> error option \<times> pystr" where
  "report_loop isprintable stdout [] out = (None, out)"
| "report_loop isprintable stdout (item # items) out =
     and_then (print_py stdout (report_line isprintable item) out)
       (report_loop isprintable stdout items)"

definition print_report ::
  "(pychar \<Rightarrow> bool) \<Rightarrow> stream \<Rightarrow> pystr list dict \<Rightarrow> pystr \<Rightarrow> error option \<times> pystr" where
  "print_report isprintable stdout unique_columns out =
     and_then (and_then (and_then (and_then (and_then
       (print_py stdout banner out)
       (print_py stdout (lit ''DATAFRAME COLUMN COMPARISON RESULTS'')))
       (print_py stdout banner))
       (print_empty stdout))
       (report_loop isprintable stdout unique_columns))
       (print_py stdout banner)"

text \<open>
  The whole function, in an environment given by \<open>isprintable\<close> and \<open>stdout\<close>. The
  result is the value returned or the exception raised, paired with the text the call
  wrote to standard output.
\<close>

definition compare_dataframe_columns ::
  "(pychar \<Rightarrow> bool) \<Rightarrow> stream \<Rightarrow> dataframe list \<Rightarrow> pystr list option \<Rightarrow> bool
     \<Rightarrow> (error + pystr list dict) \<times> pystr" where
  "compare_dataframe_columns isprintable stdout dataframes names_arg print_results =
     (case unique_columns_of dataframes names_arg of
        Inl e \<Rightarrow> (Inl e, [])
      | Inr unique_columns \<Rightarrow>
          if print_results then
            (case print_report isprintable stdout unique_columns [] of
               (Some e, out) \<Rightarrow> (Inl e, out)
             | (None, out) \<Rightarrow> (Inr unique_columns, out))
          else (Inr unique_columns, []))"

subsection \<open>The writes of the report\<close>

text \<open>The texts the report passes to \<^verbatim>\<open>sys.stdout.write\<close>, in order: each \<^verbatim>\<open>print\<close> is
  a write of its text and a write of the line end. \<open>write_all\<close> is a sequence of writes,
  ended by the first that raises.\<close>

definition report_texts :: "(pychar \<Rightarrow> bool) \<Rightarrow> pystr list dict \<Rightarrow> pystr list" where
  "report_texts isprintable unique_columns =
     [banner, [0x0A], lit ''DATAFRAME COLUMN COMPARISON RESULTS'', [0x0A], banner, [0x0A], [0x0A]] @
     concat (map (\<lambda>item. [report_line isprintable item, [0x0A]]) unique_columns) @
     [banner, [0x0A]]"

fun write_all :: "stream \<Rightarrow> pystr list \<Rightarrow> pystr \<Rightarrow> error option \<times> pystr" where
  "write_all stdout [] out = (None, out)"
| "write_all stdout (s # ss) out =
     (case stdout s of Some e \<Rightarrow> (Some e, out) | None \<Rightarrow> write_all stdout ss (out @ s))"

subsection \<open>Two streams\<close>

text \<open>A stream with the encoding UTF-8 and strict error handling encodes every code
  point but the surrogates, 0xD800 to 0xDFFF; one with the encoding ASCII and strict
  error handling encodes the code points below 0x80.\<close>

definition utf8_strict :: stream where
  "utf8_strict s = (if list_ex (\<lambda>c. 0xD800 \<le> c \<and> c \<le> 0xDFFF) s then Some UnicodeEncodeError else None)"

definition ascii_strict :: stream where
  "ascii_strict s = (if list_ex (\<lambda>c. 0x80 \<le> c) s then Some UnicodeEncodeError else None)"

subsection \<open>Notions used in the proofs\<close>

text \<open>The column set stored under a name, and the list the outer loop stores for index
  \<open>i\<close> and name \<open>name\<close> when no subscript fails.\<close>

definition stored :: "pystr set dict \<Rightarrow> pystr \<Rightarrow> pystr set" where
  "stored column_sets name = the (map_of column_sets name)"

definition unique_value :: "pystr set dict \<Rightarrow> pystr list \<Rightarrow> nat \<Rightarrow> pystr \<Rightarrow> pystr list" where
  "unique_value column_sets names i name =
     sorted_list_of_set (stored column_sets name -
       (\<Union>j\<in>{j. j < length names \<and> j \<noteq> i}. stored column_sets (names ! j)))"

text \<open>The dictionary the outer loop builds when no subscript fails.\<close>

definition result_of :: "pystr list \<Rightarrow> dataframe list \<Rightarrow> pystr list dict" where
  "result_of names dataframes =
     foldl (\<lambda>d (i, name, df).
              dict_set d name (unique_value (column_sets_of names dataframes) names i name))
       [] (enumerate 0 (zip names dataframes))"

text \<open>The number a string of decimal digits denotes.\<close>

definition dec_value :: "pystr \<Rightarrow> nat" where
  "dec_value s = foldl (\<lambda>a c. 10 * a + (c - 48)) 0 s"

section \<open>Properties\<close>

subsection \<open>Dictionaries\<close>

lemma map_of_dict_set: "map_of (dict_set d k v) = (map_of d)(k \<mapsto> v)"
  by (induction d k v rule: dict_set.induct) (auto simp: fun_eq_iff)

lemma keys_dict_set:
  "map fst (dict_set d k v) = (if k \<in> fst ` set d then map fst d else map fst d @ [k])"
  by (induction d k v rule: dict_set.induct) (auto simp: image_iff)

lemma dict_set_fresh: "k \<notin> fst ` set d \<Longrightarrow> dict_set d k v = d @ [(k, v)]"
  by (induction d k v rule: dict_set.induct) auto

lemma map_of_column_sets_fold:
  "map_of (foldl (\<lambda>d (name, df). dict_set d name (set df)) d ps) =
     map_of d ++ map_of (rev (map (\<lambda>(name, df). (name, set df)) ps))"
proof (induction ps arbitrary: d)
  case Nil
  then show ?case by simp
next
  case (Cons p ps)
  obtain name df where p: "p = (name, df)" by (cases p)
  show ?case
    by (simp add: Cons.IH p map_of_dict_set map_add_def fun_eq_iff split: option.splits)
qed

lemma map_of_column_sets:
  "map_of (column_sets_of names dataframes) =
     map_of (rev (map (\<lambda>(name, df). (name, set df)) (zip names dataframes)))"
  by (simp add: column_sets_of_def map_of_column_sets_fold)

lemma fst_column_pairs:
  "length names = length dataframes \<Longrightarrow>
     map fst (map (\<lambda>(name, df). (name, set df)) (zip names dataframes)) = names"
  by (induction names dataframes rule: list_induct2) auto

lemma dom_column_sets:
  assumes "length names = length dataframes"
  shows "dom (map_of (column_sets_of names dataframes)) = set names"
proof -
  let ?ps = "map (\<lambda>(name, df). (name, set df)) (zip names dataframes)"
  have "dom (map_of (rev ?ps)) = set (map fst ?ps)"
    by (simp only: dom_map_of_conv_image_fst set_rev set_map)
  then show ?thesis
    by (simp only: map_of_column_sets fst_column_pairs[OF assms])
qed

lemma column_sets_distinct:
  assumes "length names = length dataframes" "distinct names" "i < length names"
  shows "map_of (column_sets_of names dataframes) (names ! i) = Some (set (dataframes ! i))"
proof -
  let ?ps = "map (\<lambda>(name, df). (name, set df)) (zip names dataframes)"
  have fst: "map fst ?ps = names"
    using assms(1) by (rule fst_column_pairs)
  have "distinct (map fst (rev ?ps))"
    using assms(2) by (simp only: rev_map[symmetric] fst distinct_rev)
  moreover have "(names ! i, set (dataframes ! i)) \<in> set (rev ?ps)"
    using assms(1,3) by (force simp: set_zip)
  ultimately show ?thesis
    unfolding map_of_column_sets by (rule map_of_is_SomeI)
qed

lemma dict_get_stored:
  "name \<in> dom (map_of cs) \<Longrightarrow> dict_get cs name = Inr (stored cs name)"
  by (auto simp: dict_get_def stored_def)

lemma other_cols_loop_ok:
  assumes "snd ` set rest \<subseteq> dom (map_of cs)"
  shows "other_cols_loop cs i rest acc =
           Inr (acc \<union> (\<Union>p\<in>{p \<in> set rest. fst p \<noteq> i}. stored cs (snd p)))"
  using assms
proof (induction rest arbitrary: acc)
  case Nil
  then show ?case by simp
next
  case (Cons p rest)
  obtain j other_name where p: "p = (j, other_name)" by (cases p)
  from Cons.prems p have dom: "other_name \<in> dom (map_of cs)" and
    rest: "snd ` set rest \<subseteq> dom (map_of cs)" by auto
  show ?case
  proof (cases "i = j")
    case True
    have "{q \<in> set (p # rest). fst q \<noteq> i} = {q \<in> set rest. fst q \<noteq> i}"
      using True p by auto
    then show ?thesis
      using True p Cons.IH[OF rest] by simp
  next
    case False
    have "{q \<in> set (p # rest). fst q \<noteq> i} = insert p {q \<in> set rest. fst q \<noteq> i}"
      using False p by auto
    then show ?thesis
      using False p Cons.IH[OF rest] dict_get_stored[OF dom] by (simp add: Un_assoc)
  qed
qed

lemma enumerate_others:
  "(\<Union>p\<in>{p \<in> set (enumerate 0 names). fst p \<noteq> i}. f (snd p)) =
     (\<Union>j\<in>{j. j < length names \<and> j \<noteq> i}. f (names ! j))"
  by (auto simp: in_set_enumerate_eq)

lemma unique_of_ok:
  assumes "set names \<subseteq> dom (map_of cs)" and "name \<in> dom (map_of cs)"
  shows "unique_of cs names i name = Inr (unique_value cs names i name)"
proof -
  have "snd ` set (enumerate 0 names) \<subseteq> dom (map_of cs)"
    using assms(1) by (force simp: in_set_enumerate_eq)
  then have "other_cols_loop cs i (enumerate 0 names) {} =
      Inr (\<Union>j\<in>{j. j < length names \<and> j \<noteq> i}. stored cs (names ! j))"
    by (simp add: other_cols_loop_ok enumerate_others)
  then show ?thesis
    by (simp add: unique_of_def unique_value_def dict_get_stored[OF assms(2)])
qed

lemma unique_loop_ok:
  assumes "set names \<subseteq> dom (map_of cs)" and "(fst \<circ> snd) ` set items \<subseteq> dom (map_of cs)"
  shows "unique_loop cs names items acc =
           Inr (foldl (\<lambda>d (i, name, df). dict_set d name (unique_value cs names i name)) acc items)"
  using assms(2)
proof (induction items arbitrary: acc)
  case Nil
  then show ?case by simp
next
  case (Cons item items)
  obtain i name df where item: "item = (i, name, df)" by (cases item)
  from Cons.prems item have "name \<in> dom (map_of cs)"
    and rest: "(fst \<circ> snd) ` set items \<subseteq> dom (map_of cs)" by auto
  then show ?case
    by (simp add: item unique_of_ok[OF assms(1)] Cons.IH[OF rest])
qed

lemma resolve_names_length:
  "resolve_names dataframes names_arg = Inr names \<Longrightarrow> length names = length dataframes"
  by (auto simp: resolve_names_def default_names_def split: option.splits if_splits)

lemma unique_loop_result:
  assumes "length names = length dataframes"
  shows "unique_loop (column_sets_of names dataframes) names
           (enumerate 0 (zip names dataframes)) [] = Inr (result_of names dataframes)"
proof -
  have dom: "dom (map_of (column_sets_of names dataframes)) = set names"
    using assms by (rule dom_column_sets)
  have "(fst \<circ> snd) ` set (enumerate 0 (zip names dataframes)) \<subseteq> set names"
    by (auto simp: in_set_enumerate_eq dest: set_zip_leftD)
  then show ?thesis
    unfolding result_of_def by (intro unique_loop_ok) (simp_all add: dom)
qed

lemma unique_columns_of_valid:
  assumes "2 \<le> length dataframes" and "resolve_names dataframes names_arg = Inr names"
  shows "unique_columns_of dataframes names_arg = Inr (result_of names dataframes)"
  using assms unique_loop_result[OF resolve_names_length[OF assms(2)]]
  by (simp add: unique_columns_of_def)

subsection \<open>Default names\<close>

lemma digit_char_value: "digit_char d - 48 = d"
  by (simp add: digit_char_def)

lemma dec_value_snoc: "dec_value (s @ [c]) = 10 * dec_value s + (c - 48)"
  by (simp add: dec_value_def)

lemma dec_value_str_nat: "dec_value (str_nat n) = n"
proof (induction n rule: str_nat.induct)
  case (1 n)
  show ?case
  proof (cases "n < 10")
    case True
    then show ?thesis
      by (simp add: str_nat.simps[of n] dec_value_def digit_char_value)
  next
    case False
    then show ?thesis
      using "1.IH" by (simp add: str_nat.simps[of n] dec_value_snoc digit_char_value)
  qed
qed

lemma str_nat_inject: "str_nat m = str_nat n \<Longrightarrow> m = n"
  by (metis dec_value_str_nat)

lemma distinct_default_names: "distinct (default_names dataframes)"
  by (auto simp: default_names_def distinct_map inj_on_def dest: str_nat_inject)

lemma length_default_names: "length (default_names dataframes) = length dataframes"
  by (simp add: default_names_def)

lemma fold_dict_set_fresh:
  assumes "distinct (map fst d @ map (\<lambda>it. fst (snd it)) items)"
  shows "foldl (\<lambda>d (i, name, df). dict_set d name (g i name)) d items =
           d @ map (\<lambda>(i, name, df). (name, g i name)) items"
  using assms
proof (induction items arbitrary: d)
  case Nil
  then show ?case by simp
next
  case (Cons item items)
  obtain i name df where item: "item = (i, name, df)" by (cases item)
  from Cons.prems item have fresh: "name \<notin> fst ` set d" by auto
  from Cons.prems item have "distinct (map fst (d @ [(name, g i name)]) @ map (\<lambda>it. fst (snd it)) items)"
    by auto
  from Cons.IH[OF this] show ?case
    by (simp add: item dict_set_fresh[OF fresh])
qed

lemma result_of_distinct:
  assumes "length names = length dataframes" and "distinct names"
  shows "result_of names dataframes =
           map (\<lambda>i. (names ! i, sorted_list_of_set
                  (set (dataframes ! i) -
                     (\<Union>j\<in>{j. j < length dataframes \<and> j \<noteq> i}. set (dataframes ! j)))))
             [0..<length dataframes]"
proof -
  let ?cs = "column_sets_of names dataframes"
  let ?items = "enumerate 0 (zip names dataframes)"
  have names: "map (\<lambda>it. fst (snd it)) ?items = names"
  proof -
    have "map (\<lambda>it. fst (snd it)) ?items = map fst (map snd ?items)"
      by (simp only: map_map comp_def)
    also have "\<dots> = names"
      using assms(1) by (simp only: map_snd_enumerate map_fst_zip)
    finally show ?thesis .
  qed
  have st: "stored ?cs (names ! i) = set (dataframes ! i)" if "i < length names" for i
    using column_sets_distinct[OF assms that] by (simp add: stored_def)
  have uv: "unique_value ?cs names i (names ! i) = sorted_list_of_set
      (set (dataframes ! i) - (\<Union>j\<in>{j. j < length dataframes \<and> j \<noteq> i}. set (dataframes ! j)))"
    if "i < length names" for i
    using that assms(1) by (simp add: unique_value_def st)
  have "result_of names dataframes =
      map (\<lambda>(i, name, df). (name, unique_value ?cs names i name)) ?items"
    unfolding result_of_def using assms(2)
    by (subst fold_dict_set_fresh) (simp_all add: names)
  also have "\<dots> = map (\<lambda>i. (names ! i, unique_value ?cs names i (names ! i))) [0..<length names]"
    using assms(1) by (intro nth_equalityI) (simp_all add: nth_enumerate_eq)
  also have "\<dots> = map (\<lambda>i. (names ! i, sorted_list_of_set
      (set (dataframes ! i) - (\<Union>j\<in>{j. j < length dataframes \<and> j \<noteq> i}. set (dataframes ! j)))))
      [0..<length names]"
    by (rule map_cong) (simp_all add: uv)
  finally show ?thesis using assms(1) by simp
qed

lemma resolve_names_valid:
  assumes "case names_arg of None \<Rightarrow> True | Some ns \<Rightarrow> length ns = length dataframes"
  shows "resolve_names dataframes names_arg =
           Inr (case names_arg of None \<Rightarrow> default_names dataframes | Some ns \<Rightarrow> ns)"
  using assms by (auto simp: resolve_names_def split: option.splits)

lemma unique_columns_of_too_few:
  "length dataframes < 2 \<Longrightarrow>
     unique_columns_of dataframes names_arg =
       Inl (ValueError (lit ''Please provide at least 2 dataframes to compare''))"
  by (simp add: unique_columns_of_def)


lemma unique_columns_of_ok:
  assumes "2 \<le> length dataframes"
    and "case names_arg of None \<Rightarrow> True | Some ns \<Rightarrow> length ns = length dataframes"
  shows "unique_columns_of dataframes names_arg =
           Inr (result_of (case names_arg of None \<Rightarrow> default_names dataframes | Some ns \<Rightarrow> ns)
                  dataframes)"
  using assms(1) resolve_names_valid[OF assms(2)] by (rule unique_columns_of_valid)

subsection \<open>The stored lists\<close>

lemma dict_set_values: "snd ` set (dict_set d k v) \<subseteq> insert v (snd ` set d)"
  by (induction d k v rule: dict_set.induct) auto

lemma fold_dict_set_values:
  assumes "\<forall>v\<in>snd ` set d. P v" and "\<And>i name. P (g i name)"
  shows "\<forall>v\<in>snd ` set (foldl (\<lambda>d (i, name, df). dict_set d name (g i name)) d items). P v"
  using assms(1)
proof (induction items arbitrary: d)
  case Nil
  then show ?case by simp
next
  case (Cons item items)
  obtain i name df where item: "item = (i, name, df)" by (cases item)
  have "\<forall>v\<in>snd ` set (dict_set d name (g i name)). P v"
  proof
    fix v assume "v \<in> snd ` set (dict_set d name (g i name))"
    then have "v = g i name \<or> v \<in> snd ` set d"
      using dict_set_values[of d name "g i name"] by blast
    then show "P v"
      using Cons.prems assms(2)[of i name] by blast
  qed
  from Cons.IH[OF this] show ?case by (simp add: item)
qed

lemma unique_value_strict:
  "sorted_wrt (<) (unique_value cs names i name) \<and> distinct (unique_value cs names i name)"
  by (simp add: unique_value_def)

lemma result_of_values_strict:
  "\<forall>unique\<in>snd ` set (result_of names dataframes). sorted_wrt (<) unique \<and> distinct unique"
proof -
  let ?P = "\<lambda>unique::pystr list. sorted_wrt (<) unique \<and> distinct unique"
  let ?g = "unique_value (column_sets_of names dataframes) names"
  have "\<forall>v\<in>snd ` set ([] :: pystr list dict). ?P v"
    by simp
  moreover have "?P (?g i name)" for i name
    by (rule unique_value_strict)
  ultimately have "\<forall>v\<in>snd ` set (foldl (\<lambda>d (i, name, df). dict_set d name (?g i name)) []
      (enumerate 0 (zip names dataframes))). ?P v"
    by (rule fold_dict_set_values)
  then show ?thesis
    unfolding result_of_def .
qed

subsection \<open>Distinct names\<close>

lemma effective_names_distinct:
  assumes "names_arg = None \<or> (\<exists>ns. names_arg = Some ns \<and> length ns = length dataframes \<and> distinct ns)"
  shows "(case names_arg of None \<Rightarrow> True | Some ns \<Rightarrow> length ns = length dataframes) \<and>
         length (case names_arg of None \<Rightarrow> default_names dataframes | Some ns \<Rightarrow> ns) =
           length dataframes \<and>
         distinct (case names_arg of None \<Rightarrow> default_names dataframes | Some ns \<Rightarrow> ns)"
  using assms by (auto simp: distinct_default_names length_default_names)

lemma unique_columns_of_distinct:
  assumes "2 \<le> length dataframes"
    and "names_arg = None \<or> (\<exists>ns. names_arg = Some ns \<and> length ns = length dataframes \<and> distinct ns)"
  shows "unique_columns_of dataframes names_arg =
           Inr (map (\<lambda>i. ((case names_arg of None \<Rightarrow> default_names dataframes | Some ns \<Rightarrow> ns) ! i,
                  sorted_list_of_set (set (dataframes ! i) -
                     (\<Union>j\<in>{j. j < length dataframes \<and> j \<noteq> i}. set (dataframes ! j)))))
             [0..<length dataframes])"
proof -
  note e = effective_names_distinct[OF assms(2)]
  show ?thesis
    using unique_columns_of_ok[OF assms(1) e[THEN conjunct1]]
      result_of_distinct[OF e[THEN conjunct2, THEN conjunct1] e[THEN conjunct2, THEN conjunct2]]
    by (simp only:)
qed

lemma exclusive_set:
  "set (sorted_list_of_set (set (dataframes ! i) -
      (\<Union>j\<in>{j. j < length dataframes \<and> j \<noteq> i}. set (dataframes ! j)))) =
   {c \<in> set (dataframes ! i). \<forall>j<length dataframes. j \<noteq> i \<longrightarrow> c \<notin> set (dataframes ! j)}"
proof -
  have "finite (set (dataframes ! i) -
      (\<Union>j\<in>{j. j < length dataframes \<and> j \<noteq> i}. set (dataframes ! j)))"
    by simp
  then show ?thesis
    by (simp only: set_sorted_list_of_set) auto
qed

subsection \<open>Writes to standard output\<close>

lemma and_then_None: "and_then (None, out) f = f out"
  by (simp add: and_then_def)

lemma and_then_Some: "and_then (Some e, out) f = (Some e, out)"
  by (simp add: and_then_def)

lemma write_all_append:
  "write_all stdout (xs @ ys) out = and_then (write_all stdout xs out) (write_all stdout ys)"
  by (induction xs arbitrary: out) (simp_all add: and_then_None and_then_Some split: option.splits)

lemma write_py_write_all: "write_py stdout s out = write_all stdout [s] out"
  by (simp add: write_py_def split: option.splits)

lemma print_py_write_all: "print_py stdout s out = write_all stdout [s, [0x0A]] out"
proof -
  have "write_all stdout ([s] @ [[0x0A]]) out =
      and_then (write_all stdout [s] out) (write_all stdout [[0x0A]])"
    by (rule write_all_append)
  moreover have "write_py stdout [0x0A] = write_all stdout [[0x0A]]"
    by (rule ext) (rule write_py_write_all)
  ultimately show ?thesis
    by (simp only: print_py_def write_py_write_all append_Cons append_Nil)
qed

lemma print_empty_write_all: "print_empty stdout out = write_all stdout [[0x0A]] out"
  by (simp only: print_empty_def write_py_write_all)

lemma report_loop_write_all:
  "report_loop isprintable stdout items out =
     write_all stdout (concat (map (\<lambda>item. [report_line isprintable item, [0x0A]]) items)) out"
proof (induction items arbitrary: out)
  case Nil
  then show ?case by simp
next
  case (Cons item items)
  have "report_loop isprintable stdout items =
      write_all stdout (concat (map (\<lambda>item. [report_line isprintable item, [0x0A]]) items))"
    by (rule ext) (rule Cons.IH)
  then have "report_loop isprintable stdout (item # items) out =
      and_then (write_all stdout [report_line isprintable item, [0x0A]] out)
        (write_all stdout (concat (map (\<lambda>item. [report_line isprintable item, [0x0A]]) items)))"
    by (simp only: report_loop.simps print_py_write_all)
  also have "\<dots> = write_all stdout ([report_line isprintable item, [0x0A]] @
      concat (map (\<lambda>item. [report_line isprintable item, [0x0A]]) items)) out"
    by (simp only: write_all_append)
  finally show ?case by simp
qed

lemma print_report_write_all:
  "print_report isprintable stdout unique_columns out =
     write_all stdout (report_texts isprintable unique_columns) out"
proof -
  let ?title = "lit ''DATAFRAME COLUMN COMPARISON RESULTS''"
  let ?lines = "concat (map (\<lambda>item. [report_line isprintable item, [0x0A]]) unique_columns)"
  have p: "print_py stdout s = write_all stdout [s, [0x0A]]" for s
    by (rule ext) (rule print_py_write_all)
  have e: "print_empty stdout = write_all stdout [[0x0A]]"
    by (rule ext) (rule print_empty_write_all)
  have l: "report_loop isprintable stdout unique_columns = write_all stdout ?lines"
    by (rule ext) (rule report_loop_write_all)
  have "print_report isprintable stdout unique_columns out =
      write_all stdout ((((([banner, [0x0A]] @ [?title, [0x0A]]) @ [banner, [0x0A]]) @ [[0x0A]]) @
        ?lines) @ [banner, [0x0A]]) out"
    by (simp only: print_report_def p e l write_all_append print_py_write_all)
  then show ?thesis
    by (simp add: report_texts_def)
qed

lemma write_all_ok: "\<forall>s\<in>set ss. stdout s = None \<Longrightarrow> write_all stdout ss out = (None, out @ concat ss)"
  by (induction ss arbitrary: out) simp_all

lemma write_all_error:
  "fst (write_all stdout ss out) = Some e \<Longrightarrow> \<exists>s\<in>set ss. stdout s = Some e"
  by (induction ss arbitrary: out) (auto split: option.splits)

lemma write_all_ok_iff:
  "(fst (write_all stdout ss out) = None) = (\<forall>s\<in>set ss. stdout s = None)"
  by (induction ss arbitrary: out) (auto split: option.splits)

lemma write_all_prefix:
  "\<exists>t. snd (write_all stdout ss out) = out @ t \<and> prefix t (concat ss)"
proof (induction ss arbitrary: out)
  case Nil
  then show ?case by simp
next
  case (Cons s ss)
  show ?case
  proof (cases "stdout s")
    case None
    from Cons.IH[of "out @ s"] obtain t where
      "snd (write_all stdout ss (out @ s)) = (out @ s) @ t" "prefix t (concat ss)"
      by blast
    then have "snd (write_all stdout (s # ss) out) = out @ (s @ t) \<and>
        prefix (s @ t) (concat (s # ss))"
      using None by simp
    then show ?thesis by blast
  next
    case (Some e)
    then have "snd (write_all stdout (s # ss) out) = out @ [] \<and> prefix [] (concat (s # ss))"
      by simp
    then show ?thesis by blast
  qed
qed

subsection \<open>The whole call\<close>

lemma compare_False:
  "compare_dataframe_columns isprintable stdout dataframes names_arg False =
     (unique_columns_of dataframes names_arg, [])"
  by (simp add: compare_dataframe_columns_def split: sum.splits)

lemma compare_early_error:
  "unique_columns_of dataframes names_arg = Inl e \<Longrightarrow>
     compare_dataframe_columns isprintable stdout dataframes names_arg print_results = (Inl e, [])"
  by (simp add: compare_dataframe_columns_def)

lemma compare_True:
  assumes "unique_columns_of dataframes names_arg = Inr u"
  shows "compare_dataframe_columns isprintable stdout dataframes names_arg True =
           (case write_all stdout (report_texts isprintable u) [] of
              (Some e, out) \<Rightarrow> (Inl e, out)
            | (None, out) \<Rightarrow> (Inr u, out))"
  using assms by (simp add: compare_dataframe_columns_def print_report_write_all)

lemma compare_True_iff:
  assumes "unique_columns_of dataframes names_arg = Inr u"
  shows "(fst (compare_dataframe_columns isprintable stdout dataframes names_arg True) = Inr u) =
           (\<forall>s\<in>set (report_texts isprintable u). stdout s = None)"
proof -
  obtain r out where w: "write_all stdout (report_texts isprintable u) [] = (r, out)"
    by (cases "write_all stdout (report_texts isprintable u) []")
  have "(r = None) = (\<forall>s\<in>set (report_texts isprintable u). stdout s = None)"
    using write_all_ok_iff[of stdout "report_texts isprintable u" "[]"] w by simp
  then show ?thesis
    unfolding compare_True[OF assms] w by (cases r) simp_all
qed

lemma compare_True_cases:
  assumes "unique_columns_of dataframes names_arg = Inr u"
  shows "fst (compare_dataframe_columns isprintable stdout dataframes names_arg True) = Inr u \<or>
         (\<exists>s e. stdout s = Some e \<and>
            fst (compare_dataframe_columns isprintable stdout dataframes names_arg True) = Inl e)"
proof -
  obtain r out where w: "write_all stdout (report_texts isprintable u) [] = (r, out)"
    by (cases "write_all stdout (report_texts isprintable u) []")
  show ?thesis
  proof (cases r)
    case None
    then show ?thesis
      unfolding compare_True[OF assms] w by simp
  next
    case (Some e)
    then have "fst (write_all stdout (report_texts isprintable u) []) = Some e"
      using w by simp
    from write_all_error[OF this] obtain s where "stdout s = Some e"
      by blast
    then show ?thesis
      unfolding compare_True[OF assms] w using Some by auto
  qed
qed

lemma compare_True_text:
  assumes "unique_columns_of dataframes names_arg = Inr u"
    and "fst (compare_dataframe_columns isprintable stdout dataframes names_arg True) = Inr u'"
  shows "snd (compare_dataframe_columns isprintable stdout dataframes names_arg True) =
           concat (report_texts isprintable u)"
proof -
  obtain r out where w: "write_all stdout (report_texts isprintable u) [] = (r, out)"
    by (cases "write_all stdout (report_texts isprintable u) []")
  from assms(2) have r: "r = None"
    unfolding compare_True[OF assms(1)] w by (cases r) simp_all
  then have "\<forall>s\<in>set (report_texts isprintable u). stdout s = None"
    using write_all_ok_iff[of stdout "report_texts isprintable u" "[]"] w by simp
  from write_all_ok[OF this, of "[]"] w have "out = concat (report_texts isprintable u)"
    by simp
  then show ?thesis
    unfolding compare_True[OF assms(1)] w using r by simp
qed

lemma compare_True_prefix:
  assumes "unique_columns_of dataframes names_arg = Inr u"
  shows "prefix (snd (compare_dataframe_columns isprintable stdout dataframes names_arg True))
           (concat (report_texts isprintable u))"
proof -
  obtain r out where w: "write_all stdout (report_texts isprintable u) [] = (r, out)"
    by (cases "write_all stdout (report_texts isprintable u) []")
  from write_all_prefix[of stdout "report_texts isprintable u" "[]"] w
  have "prefix out (concat (report_texts isprintable u))"
    by simp
  then show ?thesis
    unfolding compare_True[OF assms] w by (cases r) simp_all
qed

lemma concat_report_texts:
  "concat (report_texts isprintable unique_columns) =
     replicate 60 (of_char CHR ''='') @ [0x0A] @
     lit ''DATAFRAME COLUMN COMPARISON RESULTS'' @ [0x0A] @
     replicate 60 (of_char CHR ''='') @ [0x0A] @
     [0x0A] @
     concat (map (\<lambda>(name, unique).
        (if unique = [] then name @ lit '' has no unique columns''
         else name @ lit '' has '' @ str_list isprintable unique @
              lit '' which are not present in other dataframes'') @
        [0x0A]) unique_columns) @
     replicate 60 (of_char CHR ''='') @ [0x0A]"
proof -
  have "concat (concat (map (\<lambda>item. [report_line isprintable item, [0x0A]]) unique_columns)) =
      concat (map (\<lambda>(name, unique).
        (if unique = [] then name @ lit '' has no unique columns''
         else name @ lit '' has '' @ str_list isprintable unique @
              lit '' which are not present in other dataframes'') @
        [0x0A]) unique_columns)"
    by (induction unique_columns) (auto simp: report_line_def)
  then show ?thesis
    by (simp add: report_texts_def banner_def)
qed

lemma compare_valid_False:
  assumes "2 \<le> length dataframes"
    and "case names_arg of None \<Rightarrow> True | Some ns \<Rightarrow> length ns = length dataframes"
  shows "compare_dataframe_columns isprintable stdout dataframes names_arg False =
           (Inr (result_of (case names_arg of None \<Rightarrow> default_names dataframes | Some ns \<Rightarrow> ns)
                   dataframes), [])"
  by (simp only: compare_False unique_columns_of_ok[OF assms])

lemma compare_too_few:
  "length dataframes < 2 \<Longrightarrow>
     compare_dataframe_columns isprintable stdout dataframes names_arg print_results =
       (Inl (ValueError (lit ''Please provide at least 2 dataframes to compare'')), [])"
  by (rule compare_early_error) (rule unique_columns_of_too_few)




lemma compare_of_mapping:
  assumes "unique_columns_of dataframes names_arg = Inr u"
  shows "fst (compare_dataframe_columns isprintable stdout dataframes names_arg False) = Inr u \<and>
         (fst (compare_dataframe_columns isprintable stdout dataframes names_arg True) = Inr u \<or>
          (\<exists>s e. stdout s = Some e \<and>
             fst (compare_dataframe_columns isprintable stdout dataframes names_arg True) = Inl e))"
  using compare_True_cases[OF assms, of isprintable stdout] assms
  by (simp only: compare_False fst_conv)

lemma compare_True_cases_texts:
  assumes "unique_columns_of dataframes names_arg = Inr u"
  shows "fst (compare_dataframe_columns isprintable stdout dataframes names_arg True) = Inr u \<or>
         (\<exists>s\<in>set (report_texts isprintable u). \<exists>e. stdout s = Some e \<and>
            fst (compare_dataframe_columns isprintable stdout dataframes names_arg True) = Inl e)"
proof -
  obtain r out where w: "write_all stdout (report_texts isprintable u) [] = (r, out)"
    by (cases "write_all stdout (report_texts isprintable u) []")
  show ?thesis
  proof (cases r)
    case None
    then show ?thesis
      unfolding compare_True[OF assms] w by simp
  next
    case (Some e)
    then have "fst (write_all stdout (report_texts isprintable u) []) = Some e"
      using w by simp
    from write_all_error[OF this] obtain s where
      "s \<in> set (report_texts isprintable u)" "stdout s = Some e"
      by blast
    then show ?thesis
      unfolding compare_True[OF assms] w using Some by auto
  qed
qed

lemma repr_char_plain:
  "0x20 \<le> c \<Longrightarrow> c < 0x7F \<Longrightarrow> c \<noteq> 0x27 \<Longrightarrow> c \<noteq> 0x5C \<Longrightarrow> repr_char isprintable 0x27 c = [c]"
  by (simp add: repr_char_def)

lemma concat_repr_char_plain:
  "\<forall>c\<in>set s. 0x20 \<le> c \<and> c < 0x7F \<and> c \<noteq> 0x27 \<and> c \<noteq> 0x5C \<Longrightarrow>
     concat (map (repr_char isprintable 0x27) s) = s"
  by (induction s) (simp_all add: repr_char_plain)

lemma repr_str_plain:
  assumes "\<forall>c\<in>set s. 0x20 \<le> c \<and> c < 0x7F \<and> c \<noteq> 0x27 \<and> c \<noteq> 0x5C"
  shows "repr_str isprintable s = [0x27] @ s @ [0x27]"
proof -
  have "0x27 \<notin> set s"
    using assms by blast
  then show ?thesis
    by (simp add: repr_str_def concat_repr_char_plain[OF assms])
qed

section \<open>The claims\<close>






text \<open>
  Claim C3. The code at the failing inputs. With the columns A and B, both under the name
  x, the entry under x is the empty list, while the last dataframe under x has the column
  B that no other dataframe has: \<^verbatim>\<open>column_sets\<close> is keyed by name, so the set read as
  "current" is also among the sets read as "other". With the columns A, A, C under the
  names x, y, x the entry under y is [A], although A is also a column of the first
  dataframe, whose set was overwritten under x.
\<close>

theorem C3_code_at_failing_input:
  "fst (compare_dataframe_columns isprintable stdout
          [[lit ''A''], [lit ''B'']] (Some [lit ''x'', lit ''x'']) False) =
     Inr [(lit ''x'', [])] \<and>
   sorted_list_of_set (set ([[lit ''A''], [lit ''B'']] ! 1) - set ([[lit ''A''], [lit ''B'']] ! 0)) =
     [lit ''B''] \<and>
   fst (compare_dataframe_columns isprintable stdout
          [[lit ''A''], [lit ''A''], [lit ''C'']] (Some [lit ''x'', lit ''y'', lit ''x'']) False) =
     Inr [(lit ''x'', []), (lit ''y'', [lit ''A''])]"
proof -
  have "unique_columns_of [[lit ''A''], [lit ''B'']] (Some [lit ''x'', lit ''x'']) =
      Inr [(lit ''x'', [])]"
    by code_simp
  moreover have "sorted_list_of_set
      (set ([[lit ''A''], [lit ''B'']] ! 1) - set ([[lit ''A''], [lit ''B'']] ! 0)) = [lit ''B'']"
    by code_simp
  moreover have "unique_columns_of [[lit ''A''], [lit ''A''], [lit ''C'']]
      (Some [lit ''x'', lit ''y'', lit ''x'']) = Inr [(lit ''x'', []), (lit ''y'', [lit ''A''])]"
    by code_simp
  ultimately show ?thesis
    by (simp only: compare_False fst_conv)
qed

text \<open>
  Claim C4. On a call with at least 2 dataframes and distinct names in effect, the lists
  of the mapping (returned with \<^verbatim>\<open>print_results\<close> false, and with \<^verbatim>\<open>print_results\<close>
  true unless a write of the report raises) decompose the column universe: the list at
  position \<open>i\<close> is a subset of the columns of dataframe \<open>i\<close> and disjoint from the columns
  of every other dataframe, and the union of all the lists together with the labels that
  occur in at least two dataframes is the union of all the dataframes' columns.
\<close>

theorem C4_decomposition:
  assumes "2 \<le> length dataframes"
    and "names_arg = None \<or>
         (\<exists>ns. names_arg = Some ns \<and> length ns = length dataframes \<and> distinct ns)"
  shows "\<exists>unique_columns.
           fst (compare_dataframe_columns isprintable stdout dataframes names_arg False) =
             Inr unique_columns \<and>
           (fst (compare_dataframe_columns isprintable stdout dataframes names_arg True) =
              Inr unique_columns \<or>
            (\<exists>s e. stdout s = Some e \<and>
               fst (compare_dataframe_columns isprintable stdout dataframes names_arg True) =
                 Inl e)) \<and>
           length unique_columns = length dataframes \<and>
           (\<forall>i<length dataframes.
              set (snd (unique_columns ! i)) \<subseteq> set (dataframes ! i) \<and>
              (\<forall>j<length dataframes. j \<noteq> i \<longrightarrow>
                 set (snd (unique_columns ! i)) \<inter> set (dataframes ! j) = {})) \<and>
           (\<Union>i<length dataframes. set (snd (unique_columns ! i))) \<union>
             {c. \<exists>i<length dataframes. \<exists>j<length dataframes.
                   i \<noteq> j \<and> c \<in> set (dataframes ! i) \<and> c \<in> set (dataframes ! j)} =
             \<Union>(set ` set dataframes)"
proof -
  let ?names = "case names_arg of None \<Rightarrow> default_names dataframes | Some ns \<Rightarrow> ns"
  let ?u = "map (\<lambda>i. (?names ! i, sorted_list_of_set (set (dataframes ! i) -
              (\<Union>j\<in>{j. j < length dataframes \<and> j \<noteq> i}. set (dataframes ! j)))))
            [0..<length dataframes]"
  have u: "unique_columns_of dataframes names_arg = Inr ?u"
    using assms by (rule unique_columns_of_distinct)
  note 1 = compare_of_mapping[OF u, of isprintable stdout]
  have 2: "length ?u = length dataframes"
    by simp
  have val: "set (snd (?u ! i)) =
      {c \<in> set (dataframes ! i). \<forall>j<length dataframes. j \<noteq> i \<longrightarrow> c \<notin> set (dataframes ! j)}"
    if "i < length dataframes" for i
    using that by (simp add: exclusive_set)
  have 3: "\<forall>i<length dataframes.
      set (snd (?u ! i)) \<subseteq> set (dataframes ! i) \<and>
      (\<forall>j<length dataframes. j \<noteq> i \<longrightarrow> set (snd (?u ! i)) \<inter> set (dataframes ! j) = {})"
    using val by blast
  have 4: "(\<Union>i<length dataframes. set (snd (?u ! i))) \<union>
      {c. \<exists>i<length dataframes. \<exists>j<length dataframes.
            i \<noteq> j \<and> c \<in> set (dataframes ! i) \<and> c \<in> set (dataframes ! j)} =
      \<Union>(set ` set dataframes)" (is "?L = ?R")
  proof (intro equalityI subsetI)
    fix c assume "c \<in> ?L"
    then obtain i where "i < length dataframes" "c \<in> set (dataframes ! i)"
      using val by blast
    then show "c \<in> ?R"
      using nth_mem by blast
  next
    fix c assume "c \<in> ?R"
    then obtain df where "df \<in> set dataframes" "c \<in> set df"
      by blast
    then obtain i where i: "i < length dataframes" "c \<in> set (dataframes ! i)"
      by (metis in_set_conv_nth)
    show "c \<in> ?L"
    proof (cases "\<exists>j<length dataframes. j \<noteq> i \<and> c \<in> set (dataframes ! j)")
      case True
      with i show ?thesis by blast
    next
      case False
      with i have "c \<in> set (snd (?u ! i))"
        by (simp only: val[OF i(1)]) blast
      with i(1) show ?thesis by blast
    qed
  qed
  from 1 2 3 4 show ?thesis by blast
qed

theorem C4_decomposition_witness:
  "\<forall>isprintable stdout.
     2 \<le> length [[lit ''A'', lit ''B''], [lit ''B'', lit ''C'']] \<and>
     length [lit ''l'', lit ''r''] = length [[lit ''A'', lit ''B''], [lit ''B'', lit ''C'']] \<and>
     distinct [lit ''l'', lit ''r''] \<and>
     fst (compare_dataframe_columns isprintable stdout
            [[lit ''A'', lit ''B''], [lit ''B'', lit ''C'']] (Some [lit ''l'', lit ''r'']) False) =
       Inr [(lit ''l'', [lit ''A'']), (lit ''r'', [lit ''C''])] \<and>
     (\<Union>i<length [[lit ''A'', lit ''B''], [lit ''B'', lit ''C'']].
         set (snd ([(lit ''l'', [lit ''A'']), (lit ''r'', [lit ''C''])] ! i))) \<union>
       {c. \<exists>i<length [[lit ''A'', lit ''B''], [lit ''B'', lit ''C'']].
           \<exists>j<length [[lit ''A'', lit ''B''], [lit ''B'', lit ''C'']].
             i \<noteq> j \<and> c \<in> set ([[lit ''A'', lit ''B''], [lit ''B'', lit ''C'']] ! i) \<and>
             c \<in> set ([[lit ''A'', lit ''B''], [lit ''B'', lit ''C'']] ! j)} =
       \<Union>(set ` set [[lit ''A'', lit ''B''], [lit ''B'', lit ''C'']])"
proof (intro allI)
  fix isprintable :: "pychar \<Rightarrow> bool" and stdout :: stream
  let ?dfs = "[[lit ''A'', lit ''B''], [lit ''B'', lit ''C'']]"
  let ?ns = "[lit ''l'', lit ''r'']"
  let ?r = "[(lit ''l'', [lit ''A'']), (lit ''r'', [lit ''C''])]"
  have "unique_columns_of ?dfs (Some ?ns) = Inr ?r"
    by code_simp
  then have ev: "fst (compare_dataframe_columns isprintable stdout ?dfs (Some ?ns) False) = Inr ?r"
    by (simp only: compare_False fst_conv)
  have len: "2 \<le> length ?dfs"
    by simp
  have "distinct ?ns"
    by code_simp
  then have names: "length ?ns = length ?dfs \<and> distinct ?ns"
    by simp
  then have "Some ?ns = None \<or>
      (\<exists>ns. Some ?ns = Some ns \<and> length ns = length ?dfs \<and> distinct ns)"
    by blast
  from C4_decomposition[OF len this, of isprintable stdout]
  obtain u where u: "fst (compare_dataframe_columns isprintable stdout ?dfs (Some ?ns) False) = Inr u"
    and un: "(\<Union>i<length ?dfs. set (snd (u ! i))) \<union>
      {c. \<exists>i<length ?dfs. \<exists>j<length ?dfs.
            i \<noteq> j \<and> c \<in> set (?dfs ! i) \<and> c \<in> set (?dfs ! j)} =
      \<Union>(set ` set ?dfs)"
    by blast
  from u ev have eq: "u = ?r"
    by (simp only: sum.inject)
  from len names ev un show "2 \<le> length ?dfs \<and> length ?ns = length ?dfs \<and> distinct ?ns \<and>
     fst (compare_dataframe_columns isprintable stdout ?dfs (Some ?ns) False) = Inr ?r \<and>
     (\<Union>i<length ?dfs. set (snd (?r ! i))) \<union>
       {c. \<exists>i<length ?dfs. \<exists>j<length ?dfs.
             i \<noteq> j \<and> c \<in> set (?dfs ! i) \<and> c \<in> set (?dfs ! j)} =
       \<Union>(set ` set ?dfs)"
    unfolding eq by (intro conjI) blast+
qed

text \<open>
  Claim C5. On every call that passes the two checks, each list in the mapping
  (returned with \<^verbatim>\<open>print_results\<close> false, and with \<^verbatim>\<open>print_results\<close> true unless a
  write of the report raises) is strictly ascending in the lexicographic order of strings
  and has no repeated entry, also when a dataframe lists the same column label several
  times.
\<close>

theorem C5_lists_strictly_ascending:
  assumes "2 \<le> length dataframes"
    and "case names_arg of None \<Rightarrow> True | Some ns \<Rightarrow> length ns = length dataframes"
  shows "\<exists>unique_columns.
           fst (compare_dataframe_columns isprintable stdout dataframes names_arg False) =
             Inr unique_columns \<and>
           (fst (compare_dataframe_columns isprintable stdout dataframes names_arg True) =
              Inr unique_columns \<or>
            (\<exists>s e. stdout s = Some e \<and>
               fst (compare_dataframe_columns isprintable stdout dataframes names_arg True) =
                 Inl e)) \<and>
           (\<forall>unique\<in>snd ` set unique_columns. sorted_wrt (<) unique \<and> distinct unique)"
  using compare_of_mapping[OF unique_columns_of_ok[OF assms], of isprintable stdout]
    result_of_values_strict by blast

theorem C5_lists_strictly_ascending_witness:
  "\<forall>isprintable stdout.
     2 \<le> length [[lit ''B'', lit ''A'', lit ''B'', lit ''A''], [lit ''C'', lit ''C'']] \<and>
     fst (compare_dataframe_columns isprintable stdout
            [[lit ''B'', lit ''A'', lit ''B'', lit ''A''], [lit ''C'', lit ''C'']] None False) =
       Inr [(lit ''df1'', [lit ''A'', lit ''B'']), (lit ''df2'', [lit ''C''])] \<and>
     sorted_wrt (<) [lit ''A'', lit ''B''] \<and> distinct [lit ''A'', lit ''B''] \<and>
     sorted_wrt (<) [lit ''C''] \<and> distinct [lit ''C'']"
proof (intro allI)
  fix isprintable :: "pychar \<Rightarrow> bool" and stdout :: stream
  let ?dfs = "[[lit ''B'', lit ''A'', lit ''B'', lit ''A''], [lit ''C'', lit ''C'']]"
  let ?r = "[(lit ''df1'', [lit ''A'', lit ''B'']), (lit ''df2'', [lit ''C''])]"
  have "unique_columns_of ?dfs None = Inr ?r"
    by code_simp
  then have ev: "fst (compare_dataframe_columns isprintable stdout ?dfs None False) = Inr ?r"
    by (simp only: compare_False fst_conv)
  have len: "2 \<le> length ?dfs"
    by simp
  have "case None of None \<Rightarrow> True | Some ns \<Rightarrow> length ns = length ?dfs"
    by simp
  from C5_lists_strictly_ascending[OF len this, of isprintable stdout]
  obtain u where u: "fst (compare_dataframe_columns isprintable stdout ?dfs None False) = Inr u"
    and strict: "\<forall>unique\<in>snd ` set u. sorted_wrt (<) unique \<and> distinct unique"
    by blast
  from u ev have eq: "u = ?r"
    by (simp only: sum.inject)
  with strict have "sorted_wrt (<) [lit ''A'', lit ''B''] \<and> distinct [lit ''A'', lit ''B''] \<and>
     sorted_wrt (<) [lit ''C''] \<and> distinct [lit ''C'']"
    by (simp only: list.set image_insert image_empty snd_conv ball_simps)
  with len ev show "2 \<le> length ?dfs \<and>
     fst (compare_dataframe_columns isprintable stdout ?dfs None False) = Inr ?r \<and>
     sorted_wrt (<) [lit ''A'', lit ''B''] \<and> distinct [lit ''A'', lit ''B''] \<and>
     sorted_wrt (<) [lit ''C''] \<and> distinct [lit ''C'']"
    by blast
qed



text \<open>
  Claim C7, as amended. With \<^verbatim>\<open>print_results\<close> false nothing is written to standard
  output. The outcome with \<^verbatim>\<open>print_results\<close> true is the outcome with
  \<^verbatim>\<open>print_results\<close> false, unless a write of the report raises: when the call without
  the report returns a mapping, the call with the report returns that mapping exactly
  when standard output accepts every write of the report, and otherwise raises the
  exception of a write that the stream rejected.
\<close>

theorem C7_report_and_result:
  "snd (compare_dataframe_columns isprintable stdout dataframes names_arg False) = [] \<and>
   (fst (compare_dataframe_columns isprintable stdout dataframes names_arg True) =
      fst (compare_dataframe_columns isprintable stdout dataframes names_arg False) \<or>
    (\<exists>unique_columns.
       fst (compare_dataframe_columns isprintable stdout dataframes names_arg False) =
         Inr unique_columns \<and>
       (\<exists>s\<in>set (report_texts isprintable unique_columns). \<exists>e. stdout s = Some e \<and>
          fst (compare_dataframe_columns isprintable stdout dataframes names_arg True) = Inl e))) \<and>
   (\<forall>unique_columns.
      fst (compare_dataframe_columns isprintable stdout dataframes names_arg False) =
        Inr unique_columns \<longrightarrow>
      (fst (compare_dataframe_columns isprintable stdout dataframes names_arg True) =
         Inr unique_columns) =
      (\<forall>s\<in>set (report_texts isprintable unique_columns). stdout s = None))"
proof (intro conjI allI impI)
  show "snd (compare_dataframe_columns isprintable stdout dataframes names_arg False) = []"
    by (simp only: compare_False snd_conv)
next
  show "fst (compare_dataframe_columns isprintable stdout dataframes names_arg True) =
      fst (compare_dataframe_columns isprintable stdout dataframes names_arg False) \<or>
    (\<exists>unique_columns.
       fst (compare_dataframe_columns isprintable stdout dataframes names_arg False) =
         Inr unique_columns \<and>
       (\<exists>s\<in>set (report_texts isprintable unique_columns). \<exists>e. stdout s = Some e \<and>
          fst (compare_dataframe_columns isprintable stdout dataframes names_arg True) = Inl e))"
  proof (cases "unique_columns_of dataframes names_arg")
    case (Inl e)
    then show ?thesis
      by (simp only: compare_early_error[OF Inl]) simp
  next
    case (Inr u)
    from compare_True_cases_texts[OF Inr, of isprintable stdout] show ?thesis
      by (simp only: compare_False fst_conv Inr) blast
  qed
next
  fix unique_columns
  assume "fst (compare_dataframe_columns isprintable stdout dataframes names_arg False) =
      Inr unique_columns"
  then have "unique_columns_of dataframes names_arg = Inr unique_columns"
    by (simp only: compare_False fst_conv)
  then show "(fst (compare_dataframe_columns isprintable stdout dataframes names_arg True) =
       Inr unique_columns) =
     (\<forall>s\<in>set (report_texts isprintable unique_columns). stdout s = None)"
    by (rule compare_True_iff)
qed

theorem C7_report_and_result_witness:
  "\<forall>isprintable.
     fst (compare_dataframe_columns isprintable ascii_strict
            [[lit ''A'', lit ''B''], [lit ''B'']] (Some [lit ''l'', lit ''r'']) False) =
       Inr [(lit ''l'', [lit ''A'']), (lit ''r'', [])] \<and>
     fst (compare_dataframe_columns isprintable ascii_strict
            [[lit ''A'', lit ''B''], [lit ''B'']] (Some [lit ''l'', lit ''r'']) True) =
       Inr [(lit ''l'', [lit ''A'']), (lit ''r'', [])] \<and>
     snd (compare_dataframe_columns isprintable ascii_strict
            [[lit ''A'', lit ''B''], [lit ''B'']] (Some [lit ''l'', lit ''r'']) False) = []"
proof (intro allI)
  fix isprintable
  let ?dfs = "[[lit ''A'', lit ''B''], [lit ''B'']]"
  let ?na = "Some [lit ''l'', lit ''r'']"
  let ?r = "[(lit ''l'', [lit ''A'']), (lit ''r'', [])]"
  let ?texts = "[banner, [0x0A], lit ''DATAFRAME COLUMN COMPARISON RESULTS'', [0x0A], banner,
       [0x0A], [0x0A],
       lit ''l'' @ lit '' has '' @ (lit ''['' @ ([0x27] @ lit ''A'' @ [0x27]) @ lit '']'') @
         lit '' which are not present in other dataframes'', [0x0A],
       lit ''r'' @ lit '' has no unique columns'', [0x0A], banner, [0x0A]]"
  have "unique_columns_of ?dfs ?na = Inr ?r"
    by code_simp
  then have ev: "fst (compare_dataframe_columns isprintable ascii_strict ?dfs ?na False) = Inr ?r"
    by (simp only: compare_False fst_conv)
  have "\<forall>c\<in>set (lit ''A''). 0x20 \<le> c \<and> c < 0x7F \<and> c \<noteq> 0x27 \<and> c \<noteq> 0x5C"
    by code_simp
  then have repr: "repr_str isprintable (lit ''A'') = [0x27] @ lit ''A'' @ [0x27]"
    by (rule repr_str_plain)
  have texts: "report_texts isprintable ?r = ?texts"
    by (simp add: report_texts_def report_line_def str_list_def repr)
  have ok: "\<forall>s\<in>set ?texts. ascii_strict s = None"
    by code_simp
  note c7 = C7_report_and_result[of isprintable ascii_strict ?dfs ?na]
  from c7 ev have "(fst (compare_dataframe_columns isprintable ascii_strict ?dfs ?na True) = Inr ?r) =
      (\<forall>s\<in>set (report_texts isprintable ?r). ascii_strict s = None)"
    by blast
  with ok have t: "fst (compare_dataframe_columns isprintable ascii_strict ?dfs ?na True) = Inr ?r"
    unfolding texts by blast
  from c7 have "snd (compare_dataframe_columns isprintable ascii_strict ?dfs ?na False) = []"
    by blast
  with ev t show "fst (compare_dataframe_columns isprintable ascii_strict ?dfs ?na False) = Inr ?r \<and>
     fst (compare_dataframe_columns isprintable ascii_strict ?dfs ?na True) = Inr ?r \<and>
     snd (compare_dataframe_columns isprintable ascii_strict ?dfs ?na False) = []"
    by blast
qed

text \<open>
  Claim C7 as stated fails: with a dataframe named by the letter e with acute accent and
  an ASCII standard output, the call returns a mapping with \<^verbatim>\<open>print_results\<close> false
  and raises \<^verbatim>\<open>UnicodeEncodeError\<close> with \<^verbatim>\<open>print_results\<close> true.
\<close>

theorem C7_counterexample:
  "\<forall>isprintable.
     fst (compare_dataframe_columns isprintable ascii_strict
            [[lit ''A''], [lit ''A'']] (Some [[0xE9], lit ''b'']) False) =
       Inr [([0xE9], []), (lit ''b'', [])] \<and>
     fst (compare_dataframe_columns isprintable ascii_strict
            [[lit ''A''], [lit ''A'']] (Some [[0xE9], lit ''b'']) True) =
       Inl UnicodeEncodeError"
proof (intro allI)
  fix isprintable
  let ?dfs = "[[lit ''A''], [lit ''A'']]"
  let ?na = "Some [[0xE9], lit ''b'']"
  let ?r = "[([0xE9], []), (lit ''b'', [])]"
  let ?texts = "[banner, [0x0A], lit ''DATAFRAME COLUMN COMPARISON RESULTS'', [0x0A], banner,
       [0x0A], [0x0A], [0xE9] @ lit '' has no unique columns'', [0x0A],
       lit ''b'' @ lit '' has no unique columns'', [0x0A], banner, [0x0A]]"
  have ev: "unique_columns_of ?dfs ?na = Inr ?r"
    by code_simp
  have texts: "report_texts isprintable ?r = ?texts"
    by (simp add: report_texts_def report_line_def)
  have w: "fst (write_all ascii_strict ?texts []) = Some UnicodeEncodeError"
    by code_simp
  obtain out where "write_all ascii_strict ?texts [] = (Some UnicodeEncodeError, out)"
    using w by (cases "write_all ascii_strict ?texts []") simp
  then have "fst (compare_dataframe_columns isprintable ascii_strict ?dfs ?na True) =
      Inl UnicodeEncodeError"
    unfolding compare_True[OF ev] texts by simp
  with ev show "fst (compare_dataframe_columns isprintable ascii_strict ?dfs ?na False) = Inr ?r \<and>
     fst (compare_dataframe_columns isprintable ascii_strict ?dfs ?na True) =
       Inl UnicodeEncodeError"
    by (simp only: compare_False fst_conv)
qed

text \<open>
  Claim C8, as amended. On a call that passes the two checks, with \<^verbatim>\<open>print_results\<close>
  true, the call returns exactly when standard output accepts every write of the report,
  and the text written is then exactly: a line of 60 \<^verbatim>\<open>=\<close>, the title line, a second
  line of 60 \<^verbatim>\<open>=\<close>, an empty line, then one line per entry of the returned mapping in
  its order (the name, then \<^verbatim>\<open>has <list> which are not present in other dataframes\<close>
  for a non-empty list, \<^verbatim>\<open><list>\<close> being Python's \<^verbatim>\<open>str\<close> of the list, or
  \<^verbatim>\<open>has no unique columns\<close> for the empty list), then a closing line of 60 \<^verbatim>\<open>=\<close>. When
  a write is rejected the text written is a prefix of that text. There is one line per
  dataframe when the names in effect are distinct.
\<close>

theorem C8_report_text:
  assumes "2 \<le> length dataframes"
    and "case names_arg of None \<Rightarrow> True | Some ns \<Rightarrow> length ns = length dataframes"
  shows "\<exists>unique_columns.
           fst (compare_dataframe_columns isprintable stdout dataframes names_arg False) =
             Inr unique_columns \<and>
           ((fst (compare_dataframe_columns isprintable stdout dataframes names_arg True) =
               Inr unique_columns) =
            (\<forall>s\<in>set (report_texts isprintable unique_columns). stdout s = None)) \<and>
           (fst (compare_dataframe_columns isprintable stdout dataframes names_arg True) =
              Inr unique_columns \<longrightarrow>
            snd (compare_dataframe_columns isprintable stdout dataframes names_arg True) =
              replicate 60 (of_char CHR ''='') @ [0x0A] @
              lit ''DATAFRAME COLUMN COMPARISON RESULTS'' @ [0x0A] @
              replicate 60 (of_char CHR ''='') @ [0x0A] @
              [0x0A] @
              concat (map (\<lambda>(name, unique).
                 (if unique = [] then name @ lit '' has no unique columns''
                  else name @ lit '' has '' @ str_list isprintable unique @
                       lit '' which are not present in other dataframes'') @
                 [0x0A]) unique_columns) @
              replicate 60 (of_char CHR ''='') @ [0x0A]) \<and>
           prefix (snd (compare_dataframe_columns isprintable stdout dataframes names_arg True))
             (replicate 60 (of_char CHR ''='') @ [0x0A] @
              lit ''DATAFRAME COLUMN COMPARISON RESULTS'' @ [0x0A] @
              replicate 60 (of_char CHR ''='') @ [0x0A] @
              [0x0A] @
              concat (map (\<lambda>(name, unique).
                 (if unique = [] then name @ lit '' has no unique columns''
                  else name @ lit '' has '' @ str_list isprintable unique @
                       lit '' which are not present in other dataframes'') @
                 [0x0A]) unique_columns) @
              replicate 60 (of_char CHR ''='') @ [0x0A]) \<and>
           (names_arg = None \<or> (\<exists>ns. names_arg = Some ns \<and> distinct ns) \<longrightarrow>
              length unique_columns = length dataframes)"
proof -
  let ?names = "case names_arg of None \<Rightarrow> default_names dataframes | Some ns \<Rightarrow> ns"
  let ?u = "result_of ?names dataframes"
  have u: "unique_columns_of dataframes names_arg = Inr ?u"
    using assms by (rule unique_columns_of_ok)
  have 1: "fst (compare_dataframe_columns isprintable stdout dataframes names_arg False) = Inr ?u"
    by (simp only: compare_False fst_conv u)
  note 2 = compare_True_iff[OF u, of isprintable stdout]
  have 3: "fst (compare_dataframe_columns isprintable stdout dataframes names_arg True) = Inr ?u \<longrightarrow>
      snd (compare_dataframe_columns isprintable stdout dataframes names_arg True) =
        concat (report_texts isprintable ?u)"
    using compare_True_text[OF u] by blast
  note 4 = compare_True_prefix[OF u, of isprintable stdout]
  have 5: "length ?u = length dataframes"
    if "names_arg = None \<or> (\<exists>ns. names_arg = Some ns \<and> distinct ns)"
  proof -
    from that assms(2) have "names_arg = None \<or>
        (\<exists>ns. names_arg = Some ns \<and> length ns = length dataframes \<and> distinct ns)"
      by auto
    from effective_names_distinct[OF this]
    have "length ?names = length dataframes" "distinct ?names"
      by blast+
    then show ?thesis
      by (simp only: result_of_distinct length_map length_upt)
  qed
  from 1 2 3 4 5 show ?thesis
    unfolding concat_report_texts by blast
qed

theorem C8_report_text_witness:
  "\<forall>isprintable.
     2 \<le> length [[lit ''A'', lit ''B''], [lit ''B'']] \<and>
     length [lit ''l'', lit ''r''] = length [[lit ''A'', lit ''B''], [lit ''B'']] \<and>
     compare_dataframe_columns isprintable utf8_strict
       [[lit ''A'', lit ''B''], [lit ''B'']] (Some [lit ''l'', lit ''r'']) True =
       (Inr [(lit ''l'', [lit ''A'']), (lit ''r'', [])],
        replicate 60 (of_char CHR ''='') @ [0x0A] @
        lit ''DATAFRAME COLUMN COMPARISON RESULTS'' @ [0x0A] @
        replicate 60 (of_char CHR ''='') @ [0x0A] @
        [0x0A] @
        lit ''l has ['' @ [0x27] @ lit ''A'' @ [0x27] @
          lit ''] which are not present in other dataframes'' @ [0x0A] @
        lit ''r has no unique columns'' @ [0x0A] @
        replicate 60 (of_char CHR ''='') @ [0x0A])"
proof (intro allI)
  fix isprintable
  let ?dfs = "[[lit ''A'', lit ''B''], [lit ''B'']]"
  let ?na = "Some [lit ''l'', lit ''r'']"
  let ?r = "[(lit ''l'', [lit ''A'']), (lit ''r'', [])]"
  let ?full = "\<lambda>u. replicate 60 (of_char CHR ''='') @ [0x0A] @
      lit ''DATAFRAME COLUMN COMPARISON RESULTS'' @ [0x0A] @
      replicate 60 (of_char CHR ''='') @ [0x0A] @
      [0x0A] @
      concat (map (\<lambda>(name, unique).
         (if unique = [] then name @ lit '' has no unique columns''
          else name @ lit '' has '' @ str_list isprintable unique @
               lit '' which are not present in other dataframes'') @
         [0x0A]) u) @
      replicate 60 (of_char CHR ''='') @ [0x0A]"
  let ?texts = "[banner, [0x0A], lit ''DATAFRAME COLUMN COMPARISON RESULTS'', [0x0A], banner,
       [0x0A], [0x0A],
       lit ''l'' @ lit '' has '' @ (lit ''['' @ ([0x27] @ lit ''A'' @ [0x27]) @ lit '']'') @
         lit '' which are not present in other dataframes'', [0x0A],
       lit ''r'' @ lit '' has no unique columns'', [0x0A], banner, [0x0A]]"
  have "unique_columns_of ?dfs ?na = Inr ?r"
    by code_simp
  then have ev: "fst (compare_dataframe_columns isprintable utf8_strict ?dfs ?na False) = Inr ?r"
    by (simp only: compare_False fst_conv)
  have "\<forall>c\<in>set (lit ''A''). 0x20 \<le> c \<and> c < 0x7F \<and> c \<noteq> 0x27 \<and> c \<noteq> 0x5C"
    by code_simp
  then have repr: "repr_str isprintable (lit ''A'') = [0x27] @ lit ''A'' @ [0x27]"
    by (rule repr_str_plain)
  have texts: "report_texts isprintable ?r = ?texts"
    by (simp add: report_texts_def report_line_def str_list_def repr)
  have ok: "\<forall>s\<in>set ?texts. utf8_strict s = None"
    by code_simp
  have lits: "lit ''l'' @ lit '' has '' @ (lit ''['' @ ([0x27] @ lit ''A'' @ [0x27]) @ lit '']'') @
        lit '' which are not present in other dataframes'' =
      lit ''l has ['' @ [0x27] @ lit ''A'' @ [0x27] @
        lit ''] which are not present in other dataframes''"
    "lit ''r'' @ lit '' has no unique columns'' = lit ''r has no unique columns''"
    by code_simp+
  have full: "?full ?r =
      replicate 60 (of_char CHR ''='') @ [0x0A] @
      lit ''DATAFRAME COLUMN COMPARISON RESULTS'' @ [0x0A] @
      replicate 60 (of_char CHR ''='') @ [0x0A] @
      [0x0A] @
      lit ''l has ['' @ [0x27] @ lit ''A'' @ [0x27] @
        lit ''] which are not present in other dataframes'' @ [0x0A] @
      lit ''r has no unique columns'' @ [0x0A] @
      replicate 60 (of_char CHR ''='') @ [0x0A]"
    using lits by (simp add: str_list_def repr)
  have len: "2 \<le> length ?dfs"
    by simp
  have names: "length [lit ''l'', lit ''r''] = length ?dfs"
    by simp
  then have "case ?na of None \<Rightarrow> True | Some ns \<Rightarrow> length ns = length ?dfs"
    by (simp only: option.case)
  from C8_report_text[OF len this, of isprintable utf8_strict]
  obtain u where u: "fst (compare_dataframe_columns isprintable utf8_strict ?dfs ?na False) = Inr u"
    and iff: "(fst (compare_dataframe_columns isprintable utf8_strict ?dfs ?na True) = Inr u) =
        (\<forall>s\<in>set (report_texts isprintable u). utf8_strict s = None)"
    and out: "fst (compare_dataframe_columns isprintable utf8_strict ?dfs ?na True) = Inr u \<longrightarrow>
        snd (compare_dataframe_columns isprintable utf8_strict ?dfs ?na True) = ?full u"
    by blast
  from u ev have eq: "u = ?r"
    by (simp only: sum.inject)
  from iff ok have r: "fst (compare_dataframe_columns isprintable utf8_strict ?dfs ?na True) = Inr ?r"
    unfolding eq texts by blast
  with out have "snd (compare_dataframe_columns isprintable utf8_strict ?dfs ?na True) = ?full ?r"
    unfolding eq by blast
  with r have "compare_dataframe_columns isprintable utf8_strict ?dfs ?na True = (Inr ?r, ?full ?r)"
    by (simp add: prod_eq_iff)
  with len names show "2 \<le> length ?dfs \<and> length [lit ''l'', lit ''r''] = length ?dfs \<and>
     compare_dataframe_columns isprintable utf8_strict ?dfs ?na True =
       (Inr ?r,
        replicate 60 (of_char CHR ''='') @ [0x0A] @
        lit ''DATAFRAME COLUMN COMPARISON RESULTS'' @ [0x0A] @
        replicate 60 (of_char CHR ''='') @ [0x0A] @
        [0x0A] @
        lit ''l has ['' @ [0x27] @ lit ''A'' @ [0x27] @
          lit ''] which are not present in other dataframes'' @ [0x0A] @
        lit ''r has no unique columns'' @ [0x0A] @
        replicate 60 (of_char CHR ''='') @ [0x0A])"
    unfolding full by blast
qed

text \<open>
  Claim C8 as stated fails: two dataframes under the same name x give a single line
  between the header and the closing banner, not one line per dataframe.
\<close>

theorem C8_counterexample:
  "\<forall>isprintable.
     2 \<le> length [[lit ''A''], [lit ''B'']] \<and>
     length [lit ''x'', lit ''x''] = length [[lit ''A''], [lit ''B'']] \<and>
     compare_dataframe_columns isprintable utf8_strict
       [[lit ''A''], [lit ''B'']] (Some [lit ''x'', lit ''x'']) True =
       (Inr [(lit ''x'', [])],
        replicate 60 (of_char CHR ''='') @ [0x0A] @
        lit ''DATAFRAME COLUMN COMPARISON RESULTS'' @ [0x0A] @
        replicate 60 (of_char CHR ''='') @ [0x0A] @
        [0x0A] @
        lit ''x has no unique columns'' @ [0x0A] @
        replicate 60 (of_char CHR ''='') @ [0x0A]) \<and>
     count_list
       (replicate 60 (of_char CHR ''='') @ [0x0A] @
        lit ''DATAFRAME COLUMN COMPARISON RESULTS'' @ [0x0A] @
        replicate 60 (of_char CHR ''='') @ [0x0A] @
        [0x0A] @
        lit ''x has no unique columns'' @ [0x0A] @
        replicate 60 (of_char CHR ''='') @ [0x0A]) 0x0A \<noteq>
       5 + length [[lit ''A''], [lit ''B'']]"
proof (intro allI)
  fix isprintable
  let ?dfs = "[[lit ''A''], [lit ''B'']]"
  let ?na = "Some [lit ''x'', lit ''x'']"
  let ?r = "[(lit ''x'', [])]"
  let ?texts = "[banner, [0x0A], lit ''DATAFRAME COLUMN COMPARISON RESULTS'', [0x0A], banner,
       [0x0A], [0x0A], lit ''x'' @ lit '' has no unique columns'', [0x0A], banner, [0x0A]]"
  let ?out = "replicate 60 (of_char CHR ''='') @ [0x0A] @
        lit ''DATAFRAME COLUMN COMPARISON RESULTS'' @ [0x0A] @
        replicate 60 (of_char CHR ''='') @ [0x0A] @
        [0x0A] @
        lit ''x has no unique columns'' @ [0x0A] @
        replicate 60 (of_char CHR ''='') @ [0x0A]"
  have ev: "unique_columns_of ?dfs ?na = Inr ?r"
    by code_simp
  have texts: "report_texts isprintable ?r = ?texts"
    by (simp add: report_texts_def report_line_def)
  have w: "write_all utf8_strict ?texts [] = (None, ?out)"
    by code_simp
  have c: "compare_dataframe_columns isprintable utf8_strict ?dfs ?na True = (Inr ?r, ?out)"
    unfolding compare_True[OF ev] texts w by simp
  have n: "count_list ?out 0x0A \<noteq> 5 + length ?dfs"
    by code_simp
  from c n show "2 \<le> length ?dfs \<and> length [lit ''x'', lit ''x''] = length ?dfs \<and>
     compare_dataframe_columns isprintable utf8_strict ?dfs ?na True = (Inr ?r, ?out) \<and>
     count_list ?out 0x0A \<noteq> 5 + length ?dfs"
    by simp
qed

text \<open>
  Claim C9, as amended. A call that passes the two checks (at least 2 dataframes;
  \<^verbatim>\<open>names\<close> omitted or of matching length) raises neither \<^verbatim>\<open>ValueError\<close> nor the
  \<^verbatim>\<open>KeyError\<close> of a subscript: with \<^verbatim>\<open>print_results\<close> false it returns the mapping and
  writes nothing, and with \<^verbatim>\<open>print_results\<close> true it returns the mapping exactly when
  standard output accepts every write of the report; the only failure after the checks
  is the exception of a write that the stream rejected. Every function of the model is a
  total recursive function, so the call also terminates.
\<close>

theorem C9_failure_only_from_stdout:
  assumes "2 \<le> length dataframes"
    and "case names_arg of None \<Rightarrow> True | Some ns \<Rightarrow> length ns = length dataframes"
  shows "\<exists>unique_columns.
           compare_dataframe_columns isprintable stdout dataframes names_arg False =
             (Inr unique_columns, []) \<and>
           (fst (compare_dataframe_columns isprintable stdout dataframes names_arg True) =
              Inr unique_columns \<or>
            (\<exists>s e. stdout s = Some e \<and>
               fst (compare_dataframe_columns isprintable stdout dataframes names_arg True) =
                 Inl e)) \<and>
           ((fst (compare_dataframe_columns isprintable stdout dataframes names_arg True) =
               Inr unique_columns) =
            (\<forall>s\<in>set (report_texts isprintable unique_columns). stdout s = None))"
proof -
  let ?u = "result_of (case names_arg of None \<Rightarrow> default_names dataframes | Some ns \<Rightarrow> ns)
              dataframes"
  have u: "unique_columns_of dataframes names_arg = Inr ?u"
    using assms by (rule unique_columns_of_ok)
  have "compare_dataframe_columns isprintable stdout dataframes names_arg False = (Inr ?u, [])"
    using assms by (rule compare_valid_False)
  with compare_True_cases[OF u, of isprintable stdout] compare_True_iff[OF u, of isprintable stdout]
  show ?thesis by blast
qed

theorem C9_failure_only_from_stdout_witness:
  "\<forall>isprintable.
     2 \<le> length [[lit ''A'', lit ''B''], [lit ''B'', lit ''A'']] \<and>
     compare_dataframe_columns isprintable utf8_strict
       [[lit ''A'', lit ''B''], [lit ''B'', lit ''A'']] None False =
       (Inr [(lit ''df1'', []), (lit ''df2'', [])], []) \<and>
     fst (compare_dataframe_columns isprintable utf8_strict
       [[lit ''A'', lit ''B''], [lit ''B'', lit ''A'']] None True) =
       Inr [(lit ''df1'', []), (lit ''df2'', [])]"
proof (intro allI)
  fix isprintable
  let ?dfs = "[[lit ''A'', lit ''B''], [lit ''B'', lit ''A'']]"
  let ?r = "[(lit ''df1'', []), (lit ''df2'', [])]"
  have ev: "unique_columns_of ?dfs None = Inr ?r"
    by code_simp
  have len: "2 \<le> length ?dfs"
    by simp
  have "case None of None \<Rightarrow> True | Some ns \<Rightarrow> length ns = length ?dfs"
    by simp
  from C9_failure_only_from_stdout[OF len this, of isprintable utf8_strict]
  obtain u where u: "compare_dataframe_columns isprintable utf8_strict ?dfs None False = (Inr u, [])"
    and iff: "(fst (compare_dataframe_columns isprintable utf8_strict ?dfs None True) = Inr u) =
        (\<forall>s\<in>set (report_texts isprintable u). utf8_strict s = None)"
    by blast
  from u ev have eq: "u = ?r"
    by (simp only: compare_False prod.inject sum.inject)
  have texts: "report_texts isprintable ?r =
      [banner, [0x0A], lit ''DATAFRAME COLUMN COMPARISON RESULTS'', [0x0A], banner, [0x0A], [0x0A],
       lit ''df1'' @ lit '' has no unique columns'', [0x0A],
       lit ''df2'' @ lit '' has no unique columns'', [0x0A], banner, [0x0A]]"
    by (simp add: report_texts_def report_line_def)
  have "\<forall>s\<in>set [banner, [0x0A], lit ''DATAFRAME COLUMN COMPARISON RESULTS'', [0x0A], banner,
       [0x0A], [0x0A], lit ''df1'' @ lit '' has no unique columns'', [0x0A],
       lit ''df2'' @ lit '' has no unique columns'', [0x0A], banner, [0x0A]].
       utf8_strict s = None"
    by code_simp
  with iff have "fst (compare_dataframe_columns isprintable utf8_strict ?dfs None True) = Inr ?r"
    unfolding eq texts by blast
  with len u show "2 \<le> length ?dfs \<and>
     compare_dataframe_columns isprintable utf8_strict ?dfs None False = (Inr ?r, []) \<and>
     fst (compare_dataframe_columns isprintable utf8_strict ?dfs None True) = Inr ?r"
    unfolding eq by blast
qed

text \<open>
  Claim C9 as stated fails: two dataframes with string columns, named by a lone
  surrogate and y, pass both checks, and on a UTF-8 standard output the call raises
  \<^verbatim>\<open>UnicodeEncodeError\<close> after the four lines of the header.
\<close>

theorem C9_counterexample:
  "\<forall>isprintable.
     2 \<le> length [[lit ''A''], [lit ''A'']] \<and>
     length [[0xD800], lit ''y''] = length [[lit ''A''], [lit ''A'']] \<and>
     compare_dataframe_columns isprintable utf8_strict
       [[lit ''A''], [lit ''A'']] (Some [[0xD800], lit ''y'']) True =
       (Inl UnicodeEncodeError,
        banner @ [0x0A] @ lit ''DATAFRAME COLUMN COMPARISON RESULTS'' @ [0x0A] @
        banner @ [0x0A] @ [0x0A])"
proof (intro allI)
  fix isprintable
  let ?dfs = "[[lit ''A''], [lit ''A'']]"
  let ?ns = "[[0xD800], lit ''y'']"
  let ?r = "[([0xD800], []), (lit ''y'', [])]"
  have ev: "unique_columns_of ?dfs (Some ?ns) = Inr ?r"
    by code_simp
  have texts: "report_texts isprintable ?r =
      [banner, [0x0A], lit ''DATAFRAME COLUMN COMPARISON RESULTS'', [0x0A], banner, [0x0A], [0x0A],
       [0xD800] @ lit '' has no unique columns'', [0x0A],
       lit ''y'' @ lit '' has no unique columns'', [0x0A], banner, [0x0A]]"
    by (simp add: report_texts_def report_line_def)
  have w: "write_all utf8_strict
      [banner, [0x0A], lit ''DATAFRAME COLUMN COMPARISON RESULTS'', [0x0A], banner, [0x0A], [0x0A],
       [0xD800] @ lit '' has no unique columns'', [0x0A],
       lit ''y'' @ lit '' has no unique columns'', [0x0A], banner, [0x0A]] [] =
      (Some UnicodeEncodeError,
       banner @ [0x0A] @ lit ''DATAFRAME COLUMN COMPARISON RESULTS'' @ [0x0A] @
       banner @ [0x0A] @ [0x0A])"
    by code_simp
  have "compare_dataframe_columns isprintable utf8_strict ?dfs (Some ?ns) True =
      (Inl UnicodeEncodeError,
       banner @ [0x0A] @ lit ''DATAFRAME COLUMN COMPARISON RESULTS'' @ [0x0A] @
       banner @ [0x0A] @ [0x0A])"
    unfolding compare_True[OF ev] texts w by simp
  then show "2 \<le> length ?dfs \<and> length ?ns = length ?dfs \<and>
     compare_dataframe_columns isprintable utf8_strict ?dfs (Some ?ns) True =
       (Inl UnicodeEncodeError,
        banner @ [0x0A] @ lit ''DATAFRAME COLUMN COMPARISON RESULTS'' @ [0x0A] @
        banner @ [0x0A] @ [0x0A])"
    by simp
qed

text \<open>
  Claim C10. When fewer than 2 dataframes are supplied together with given names whose
  length differs from the number of dataframes, the exception raised is the
  \<^verbatim>\<open>ValueError\<close> about the number of dataframes: that check comes first. Nothing is
  printed.
\<close>

theorem C10_count_check_first:
  assumes "length dataframes < 2" and "length ns \<noteq> length dataframes"
  shows "compare_dataframe_columns isprintable stdout dataframes (Some ns) print_results =
           (Inl (ValueError (lit ''Please provide at least 2 dataframes to compare'')), [])"
  using assms(1) by (rule compare_too_few)

theorem C10_count_check_first_witness:
  "\<forall>isprintable stdout.
     length [[lit ''A'']] < (2::nat) \<and> length [lit ''x'', lit ''y''] \<noteq> length [[lit ''A'']] \<and>
     compare_dataframe_columns isprintable stdout [[lit ''A'']] (Some [lit ''x'', lit ''y'']) True =
       (Inl (ValueError (lit ''Please provide at least 2 dataframes to compare'')), [])"
proof (intro allI)
  fix isprintable stdout
  show "length [[lit ''A'']] < (2::nat) \<and> length [lit ''x'', lit ''y''] \<noteq> length [[lit ''A'']] \<and>
     compare_dataframe_columns isprintable stdout [[lit ''A'']] (Some [lit ''x'', lit ''y'']) True =
       (Inl (ValueError (lit ''Please provide at least 2 dataframes to compare'')), [])"
    using C10_count_check_first[of "[[lit ''A'']]" "[lit ''x'', lit ''y'']" isprintable stdout True]
    by simp
qed

end
